theory Spec2Isabelle
  imports Main "HOL-Library.Word" "HOL-Library.Signed_Division"
begin

unbundle bit_operations_syntax

section \<open>s6prog.c: a Spartan 6 JTAG programmer over an FTDI MPSSE bridge\<close>

text \<open>
  The development embeds the protocol core of \<^verbatim>\<open>src/s6prog.c\<close>: the command buffer
  (\<^verbatim>\<open>jtag_buf\<close>, \<^verbatim>\<open>jtag_buf_i\<close>), the flush and receive primitives
  (\<^verbatim>\<open>jtag_send\<close>, \<^verbatim>\<open>jtag_recv\<close>), the TAP transitions, the byte and bit shift
  encoders, the data-register transfer \<^verbatim>\<open>jtag_dr_op\<close>, the handshake
  \<^verbatim>\<open>jtag_mpsse_sync\<close> and the helper \<^verbatim>\<open>bit_swap\<close>.

  An \<^verbatim>\<open>unsigned char\<close> is an \<open>8 word\<close>. A C \<^verbatim>\<open>int\<close> is an \<open>int\<close>: the lengths
  and counters of the program stay far inside 32 bits on every path the theorems talk
  about, and division is C's truncating one (\<open>sdiv\<close>).
\<close>

type_synonym byte = "8 word"

subsection \<open>bit\_swap (lines 608--613)\<close>

text \<open>
  \<^verbatim>\<open>*c = ((*c & 0xf0) >> 4) | ((*c & 0x0f) << 4);\<close> and the two further lines.
  C computes each line in \<^verbatim>\<open>int\<close> and stores the low 8 bits; every left shift is of
  a masked value that stays below 256, so the 8-bit operations give the same byte.
\<close>

definition bit_swap :: "byte \<Rightarrow> byte" where
  "bit_swap c =
     (let c1 = drop_bit 4 (c AND 0xf0) OR push_bit 4 (c AND 0x0f);
          c2 = drop_bit 2 (c1 AND 0xcc) OR push_bit 2 (c1 AND 0x33)
      in drop_bit 1 (c2 AND 0xaa) OR push_bit 1 (c2 AND 0x55))"

subsection \<open>The split of a bit length (jtag\_dr\_op, lines 466--470)\<close>

text \<open>
  \<^verbatim>\<open>bytes_remaining = (n - 1) / 8;\<close> and
  \<^verbatim>\<open>bits_remaining = n - (bytes_remaining * 8);\<close>
\<close>

definition whole_bytes :: "int \<Rightarrow> int" where
  "whole_bytes n = (n - 1) sdiv 8"

definition tail_bits :: "int \<Rightarrow> int" where
  "tail_bits n = n - whole_bytes n * 8"

subsection \<open>Constants\<close>

text \<open>
  The bits of an MPSSE shifting command, as the comment block of lines 105--112 lists
  them, and the constants of lines 19 and 43--45.
\<close>

definition MPSSE_WRITE_NEG :: byte where "MPSSE_WRITE_NEG = 0x01"
definition MPSSE_BITMODE :: byte where "MPSSE_BITMODE = 0x02"
definition MPSSE_READ_NEG :: byte where "MPSSE_READ_NEG = 0x04"
definition MPSSE_LSB :: byte where "MPSSE_LSB = 0x08"
definition MPSSE_DO_WRITE :: byte where "MPSSE_DO_WRITE = 0x10"
definition MPSSE_DO_READ :: byte where "MPSSE_DO_READ = 0x20"
definition MPSSE_WRITE_TMS :: byte where "MPSSE_WRITE_TMS = 0x40"
definition DATA_CLK_BITS :: byte where "DATA_CLK_BITS = 0x8e"

definition JTAG_BUFFER_SIZE :: int where "JTAG_BUFFER_SIZE = 1024 * 1024"
definition JTAG_CHUNK_SIZE :: int where "JTAG_CHUNK_SIZE = 0x8000"
definition JTAG_RECV_ATTEMPTS :: int where "JTAG_RECV_ATTEMPTS = 20"

lemmas mpsse_defs =
  MPSSE_WRITE_NEG_def MPSSE_BITMODE_def MPSSE_READ_NEG_def MPSSE_LSB_def
  MPSSE_DO_WRITE_def MPSSE_DO_READ_def MPSSE_WRITE_TMS_def DATA_CLK_BITS_def

subsection \<open>The transport collaborator and the session state\<close>

text \<open>
  \<^verbatim>\<open>ftdi_write_data\<close> and \<^verbatim>\<open>ftdi_read_data\<close> belong to libftdi. They are taken as
  parameters over an arbitrary transport state \<open>'tr\<close>, so that a theorem about all
  transports covers every behaviour of the collaborator. A write returns an \<^verbatim>\<open>int\<close>
  (the count accepted, or a negative error). A read either stores some bytes at the
  pointer it is given and returns their number, or stores nothing and returns an error
  code.
\<close>

datatype read_result = RdBytes "byte list" | RdError int

record 'tr transport =
  ftdi_write_data :: "'tr \<Rightarrow> byte list \<Rightarrow> int \<times> 'tr"
  ftdi_read_data :: "'tr \<Rightarrow> int \<Rightarrow> read_result \<times> 'tr"

text \<open>
  The calls that \<^verbatim>\<open>jtag_dr_op\<close> makes, in program order and with what they
  returned. This history is not a variable of the C program: the model of
  \<^verbatim>\<open>jtag_dr_op\<close> appends to it at each call site, and the ordering theorem reads it.
\<close>

datatype call =
    ShiftBytes int        \<comment> \<open>\<^verbatim>\<open>jtag_shift_bytes(_, chunk_length, _)\<close>\<close>
  | ShiftBits int         \<comment> \<open>\<^verbatim>\<open>jtag_shift_bits(_, bits_remaining, _)\<close>\<close>
  | Send int              \<comment> \<open>\<^verbatim>\<open>jtag_send()\<close> and its return value\<close>
  | Recv int int          \<comment> \<open>\<^verbatim>\<open>jtag_recv(_, chunk_length)\<close> and its return value\<close>
  | RecvBits int int      \<comment> \<open>\<^verbatim>\<open>jtag_recv_bits(_, bits_remaining)\<close> and its return value\<close>

text \<open>
  \<open>jtag_buf\<close> holds the bytes \<^verbatim>\<open>jtag_buf[0 .. jtag_buf_i - 1]\<close>; \<^verbatim>\<open>jtag_buf_i\<close> is
  its length. \<open>ftdi\<close> is the state of the transport behind \<^verbatim>\<open>struct ftdi_context\<close>.
\<close>

record 'tr session =
  jtag_buf :: "byte list"
  ftdi :: "'tr"
  calls :: "call list"

text \<open>
  Memory reached through a \<^verbatim>\<open>unsigned char *\<close>: a byte for every offset from the base
  pointer. \<open>None\<close> is the \<^verbatim>\<open>NULL\<close> pointer.
\<close>

type_synonym mem = "int \<Rightarrow> byte"

definition poke :: "mem \<Rightarrow> int \<Rightarrow> byte list \<Rightarrow> mem" where
  "poke m p bs = (\<lambda>i. if p \<le> i \<and> i < p + int (length bs) then bs ! nat (i - p) else m i)"

definition log_call :: "call \<Rightarrow> 'tr session \<Rightarrow> 'tr session" where
  "log_call c s = s\<lparr>calls := calls s @ [c]\<rparr>"

text \<open>
  One \<^verbatim>\<open>jtag_buf[jtag_buf_i++] = b;\<close>. The source compares \<^verbatim>\<open>jtag_buf_i\<close> with
  nothing: \<^verbatim>\<open>JTAG_BUFFER_SIZE\<close> is used once, as the size of the allocation (line 200).
  The model keeps every byte put, so a length above \<open>JTAG_BUFFER_SIZE\<close> stands for
  writes past the end of the allocation.
\<close>

definition put :: "byte \<Rightarrow> 'tr session \<Rightarrow> 'tr session" where
  "put b s = s\<lparr>jtag_buf := jtag_buf s @ [b]\<rparr>"

subsection \<open>jtag\_send (lines 129--149)\<close>

definition jtag_send :: "'tr transport \<Rightarrow> 'tr session \<Rightarrow> int \<times> 'tr session" where
  "jtag_send T s =
     (if int (length (jtag_buf s)) < 1 then (1, s)
      else
        (let (l, tr') = ftdi_write_data T (ftdi s) (jtag_buf s) in
         if l \<noteq> int (length (jtag_buf s)) then (1, s\<lparr>ftdi := tr'\<rparr>)
         else (0, s\<lparr>jtag_buf := [], ftdi := tr'\<rparr>)))"

subsection \<open>jtag\_recv (lines 151--181)\<close>

text \<open>
  The locals of the loop: the pointer \<^verbatim>\<open>rbuf\<close> (the memory it points into, \<open>None\<close>
  for \<^verbatim>\<open>NULL\<close>, and the offset reached), the count \<^verbatim>\<open>n\<close> still outstanding, and the
  transport.
\<close>

record 'tr recv_state =
  rbuf :: "mem option"
  rpos :: int
  rn :: int
  rtr :: "'tr"

text \<open>
  The value \<^verbatim>\<open>ret\<close> of a read, and the body of the loop up to \<^verbatim>\<open>n -= ret;\<close>. With
  a \<^verbatim>\<open>NULL\<close> pointer the read goes to the local \<^verbatim>\<open>buf[32]\<close>, which nothing reads
  afterwards.
\<close>

definition read_count :: "read_result \<Rightarrow> int" where
  "read_count r = (case r of RdBytes bs \<Rightarrow> int (length bs) | RdError e \<Rightarrow> e)"

definition recv_step :: "'tr transport \<Rightarrow> 'tr recv_state \<Rightarrow> 'tr recv_state" where
  "recv_step T st =
     (let (r, tr') = (if rbuf st \<noteq> None then ftdi_read_data T (rtr st) (rn st)
                      else ftdi_read_data T (rtr st) 32);
          ret = read_count r
      in st\<lparr>rbuf := (case r of RdBytes bs \<Rightarrow> map_option (\<lambda>m. poke m (rpos st) bs) (rbuf st)
                         | RdError e \<Rightarrow> rbuf st),
             rpos := (if rbuf st \<noteq> None then rpos st + ret else rpos st),
             rn := rn st - ret,
             rtr := tr'\<rparr>)"

text \<open>
  \<^verbatim>\<open>while(n > 0) { ...; if(timeout-- <= 0) break; }\<close>: the test reads \<^verbatim>\<open>timeout\<close>
  before the decrement.
\<close>

function jtag_recv_loop :: "'tr transport \<Rightarrow> int \<Rightarrow> 'tr recv_state \<Rightarrow> 'tr recv_state" where
  "jtag_recv_loop T timeout st =
     (if rn st > 0 then
        (let st' = recv_step T st in
         if timeout \<le> 0 then st' else jtag_recv_loop T (timeout - 1) st')
      else st)"
  by pat_completeness auto
termination
  by (relation "measure (\<lambda>(T, timeout, st). nat timeout)") auto

definition jtag_recv ::
  "'tr transport \<Rightarrow> mem option \<Rightarrow> int \<Rightarrow> int \<Rightarrow> 'tr session \<Rightarrow> int \<times> mem option \<times> 'tr session" where
  "jtag_recv T buf p n s =
     (let st = jtag_recv_loop T JTAG_RECV_ATTEMPTS \<lparr>rbuf = buf, rpos = p, rn = n, rtr = ftdi s\<rparr>
      in (rn st, rbuf st, s\<lparr>ftdi := rtr st\<rparr>))"

subsection \<open>TAP transitions (lines 281--354)\<close>

definition jtag_to_tlr :: "'tr session \<Rightarrow> 'tr session" where
  "jtag_to_tlr s =
     (let s = put (MPSSE_WRITE_TMS OR MPSSE_LSB OR MPSSE_BITMODE OR MPSSE_WRITE_NEG) s;
          s = put 4 s
      in put 0x9f s)"

definition jtag_tlr_to_rti :: "'tr session \<Rightarrow> 'tr session" where
  "jtag_tlr_to_rti s =
     (let s = put (MPSSE_WRITE_TMS OR MPSSE_LSB OR MPSSE_BITMODE OR MPSSE_WRITE_NEG) s;
          s = put 0 s
      in put 0x80 s)"

definition jtag_rti_to_shift_ir :: "'tr session \<Rightarrow> 'tr session" where
  "jtag_rti_to_shift_ir s =
     (let s = put (MPSSE_WRITE_TMS OR MPSSE_LSB OR MPSSE_BITMODE OR MPSSE_WRITE_NEG) s;
          s = put 3 s
      in put 0x83 s)"

definition jtag_rti_to_shift_dr :: "'tr session \<Rightarrow> 'tr session" where
  "jtag_rti_to_shift_dr s =
     (let s = put (MPSSE_WRITE_TMS OR MPSSE_LSB OR MPSSE_BITMODE OR MPSSE_WRITE_NEG) s;
          s = put 2 s
      in put 0x81 s)"

definition jtag_exit1_ir_to_rti :: "'tr session \<Rightarrow> 'tr session" where
  "jtag_exit1_ir_to_rti s =
     (let s = put (MPSSE_WRITE_TMS OR MPSSE_LSB OR MPSSE_BITMODE OR MPSSE_WRITE_NEG) s;
          s = put 1 s
      in put 0x81 s)"

definition jtag_exit1_dr_to_rti :: "'tr session \<Rightarrow> 'tr session" where
  "jtag_exit1_dr_to_rti s =
     (let s = put (MPSSE_WRITE_TMS OR MPSSE_LSB OR MPSSE_BITMODE OR MPSSE_WRITE_NEG) s;
          s = put 1 s
      in put 0x81 s)"

text \<open>
  \<^verbatim>\<open>jtag_rti_spin\<close> (lines 299--316): one TMS command, 128 clock-only commands, and a
  flush whose result the source drops.
\<close>

definition jtag_rti_spin :: "'tr transport \<Rightarrow> 'tr session \<Rightarrow> 'tr session" where
  "jtag_rti_spin T s =
     (let s = put (MPSSE_WRITE_TMS OR MPSSE_LSB OR MPSSE_BITMODE OR MPSSE_WRITE_NEG) s;
          s = put 0 s;
          s = put 0x80 s;
          s = foldl (\<lambda>s n. put 7 (put DATA_CLK_BITS s)) s [0..<128]
      in snd (jtag_send T s))"

subsection \<open>jtag\_shift\_bytes (lines 359--379)\<close>

text \<open>
  The pointer argument \<^verbatim>\<open>&tdi[tdi_i]\<close> is the memory \<open>tdi\<close> with the offset \<open>off\<close>.
  The two length bytes are \<^verbatim>\<open>(n - 1) & 0xff\<close> and \<^verbatim>\<open>((n - 1) >> 8) & 0xff\<close>.
\<close>

definition jtag_shift_bytes ::
  "mem option \<Rightarrow> int \<Rightarrow> int \<Rightarrow> bool \<Rightarrow> 'tr session \<Rightarrow> 'tr session" where
  "jtag_shift_bytes tdi off n do_read s =
     (let cmd = MPSSE_LSB;
          cmd = (if tdi \<noteq> None then cmd OR (MPSSE_DO_WRITE OR MPSSE_WRITE_NEG) else cmd);
          cmd = (if do_read then cmd OR MPSSE_DO_READ else cmd);
          s = put cmd s;
          s = put (word_of_int ((n - 1) AND 0xff)) s;
          s = put (word_of_int (drop_bit 8 (n - 1) AND 0xff)) s
      in case tdi of
           None \<Rightarrow> s
         | Some m \<Rightarrow> foldl (\<lambda>s i. put (m (off + int i)) s) s [0..<nat n])"

subsection \<open>jtag\_shift\_bits (lines 384--420)\<close>

text \<open>
  \<open>tdi\<close> is the byte \<^verbatim>\<open>*tdi\<close>, or \<open>None\<close> for a \<^verbatim>\<open>NULL\<close> pointer. The masks
  \<^verbatim>\<open>(1 << (n - 1)) - 1\<close> and \<^verbatim>\<open>1 << (n - 1)\<close> are computed in \<^verbatim>\<open>int\<close>, as C does
  after promoting \<^verbatim>\<open>*tdi\<close>. C defines these shifts for \<open>n\<close> from 1 to 31 only; the
  program passes 6 and the tail lengths 1 to 8, and the theorems on the bytes encoded
  take \<open>n\<close> in that range.
\<close>

definition jtag_shift_bits :: "byte option \<Rightarrow> int \<Rightarrow> bool \<Rightarrow> 'tr session \<Rightarrow> 'tr session" where
  "jtag_shift_bits tdi n do_read s =
     (let s =
        (if n > 1 then
           (let cmd = MPSSE_BITMODE OR MPSSE_LSB;
                cmd = (if tdi \<noteq> None then cmd OR (MPSSE_DO_WRITE OR MPSSE_WRITE_NEG) else cmd);
                cmd = (if do_read then cmd OR MPSSE_DO_READ else cmd);
                s = put cmd s;
                s = put (word_of_int (n - 2)) s
            in case tdi of
                 None \<Rightarrow> s
               | Some d \<Rightarrow> put (word_of_int (uint d AND (push_bit (nat (n - 1)) 1 - 1))) s)
         else s);
          cmd = MPSSE_WRITE_TMS OR MPSSE_BITMODE OR MPSSE_LSB OR MPSSE_WRITE_NEG;
          cmd = (if do_read then cmd OR MPSSE_DO_READ else cmd);
          s = put cmd s;
          s = put 0 s
      in case tdi of
           None \<Rightarrow> put 0x01 s
         | Some d \<Rightarrow> put (if uint d AND push_bit (nat (n - 1)) 1 \<noteq> 0 then 0x81 else 0x01) s)"

subsection \<open>jtag\_recv\_bits (lines 424--450)\<close>

text \<open>
  \<open>rbuf0\<close> is whatever the local array \<^verbatim>\<open>rbuf[2]\<close> holds before the receive; the
  theorems hold for every such content. The result carries the byte stored through
  \<^verbatim>\<open>tdo\<close>, when one is stored.
\<close>

definition jtag_recv_bits ::
  "'tr transport \<Rightarrow> mem \<Rightarrow> int \<Rightarrow> 'tr session \<Rightarrow> int \<times> byte option \<times> 'tr session" where
  "jtag_recv_bits T rbuf0 n s =
     (if n < 1 \<or> n > 8 then (1, None, s)
      else
        (let (r, rb, s) = jtag_recv T (Some rbuf0) 0 (if n > 1 then 2 else 1) s in
         if r \<noteq> 0 then (1, None, s)
         else if n > 1 then
           (0, map_option (\<lambda>m. drop_bit (nat (8 - n)) ((m 1 AND 0x80) OR drop_bit 1 (m 0))) rb, s)
         else
           (0, map_option (\<lambda>m. drop_bit 7 (m 0 AND 0x80)) rb, s)))"

subsection \<open>jtag\_dr\_op (lines 455--560)\<close>

text \<open>The locals that the chunk loop changes, with the session.\<close>

record 'tr dr_state =
  bytes_remaining :: int
  tdi_i :: int
  tdo_i :: int
  chunk_length :: int
  tdo :: "mem option"
  sess :: "'tr session"

text \<open>
  One pass through the body of \<^verbatim>\<open>while(bytes_remaining > 0)\<close> (lines 478--512).
  \<open>Inl\<close> is a \<^verbatim>\<open>return 1\<close> from inside the loop, with the state it leaves behind.
\<close>

definition dr_chunk_body ::
  "'tr transport \<Rightarrow> mem option \<Rightarrow> 'tr dr_state \<Rightarrow> 'tr dr_state + 'tr dr_state" where
  "dr_chunk_body T tdi st =
     (let cl = (if bytes_remaining st > JTAG_CHUNK_SIZE then JTAG_CHUNK_SIZE
                else bytes_remaining st);
          s = log_call (ShiftBytes cl)
                (jtag_shift_bytes tdi (tdi_i st) cl (tdo st \<noteq> None) (sess st));
          st = st\<lparr>chunk_length := cl,
                  tdi_i := (if tdi \<noteq> None then tdi_i st + cl else tdi_i st),
                  bytes_remaining := bytes_remaining st - cl,
                  sess := s\<rparr>
      in if bytes_remaining st > 0 then
           (let (r, s) = jtag_send T (sess st);
                s = log_call (Send r) s
            in if r \<noteq> 0 then Inl (st\<lparr>sess := s\<rparr>)
               else if tdo st \<noteq> None then
                 (let (r, m, s) = jtag_recv T (tdo st) (tdo_i st) cl s;
                      s = log_call (Recv cl r) s
                  in if r \<noteq> 0 then Inl (st\<lparr>tdo := m, sess := s\<rparr>)
                     else Inr (st\<lparr>tdo := m, tdo_i := tdo_i st + cl, sess := s\<rparr>))
               else Inr (st\<lparr>sess := s\<rparr>))
         else Inr st)"

lemma dr_chunk_body_decreases:
  assumes "0 < bytes_remaining st" and "dr_chunk_body T tdi st = Inr st'"
  shows "bytes_remaining st' < bytes_remaining st"
  using assms
  by (auto simp: dr_chunk_body_def Let_def JTAG_CHUNK_SIZE_def
      split: if_splits prod.splits)

function dr_chunks ::
  "'tr transport \<Rightarrow> mem option \<Rightarrow> 'tr dr_state \<Rightarrow> 'tr dr_state + 'tr dr_state" where
  "dr_chunks T tdi st =
     (if bytes_remaining st > 0 then
        (case dr_chunk_body T tdi st of
           Inl e \<Rightarrow> Inl e
         | Inr st' \<Rightarrow> dr_chunks T tdi st')
      else Inr st)"
  by pat_completeness auto
termination
  by (relation "measure (\<lambda>(T, tdi, st). nat (bytes_remaining st))")
    (auto dest: dr_chunk_body_decreases)

text \<open>
  The whole transfer, in the order of the source: the argument check and the transition
  to Shift-DR (\<open>dr_init\<close> builds the locals, lines 460--474), the chunk loop, the tail
  and the final flush (\<open>dr_finish\<close>, lines 515--532), the receives (\<open>dr_receive\<close>,
  lines 535--557). \<open>tdi\<close> and \<open>tdo0\<close> are the two pointer arguments, \<open>rbuf0\<close> the
  initial content of the local array of \<^verbatim>\<open>jtag_recv_bits\<close>. The result is the return
  value, the memory behind \<^verbatim>\<open>tdo\<close>, and the session.
\<close>

definition dr_init :: "mem option \<Rightarrow> int \<Rightarrow> 'tr session \<Rightarrow> 'tr dr_state" where
  "dr_init tdo0 n s =
     \<lparr>bytes_remaining = whole_bytes n, tdi_i = 0, tdo_i = 0, chunk_length = 0, tdo = tdo0,
      sess = jtag_rti_to_shift_dr s\<rparr>"

definition dr_receive ::
  "'tr transport \<Rightarrow> mem \<Rightarrow> int \<Rightarrow> 'tr dr_state \<Rightarrow> 'tr session \<Rightarrow> int \<times> mem option \<times> 'tr session" where
  "dr_receive T rbuf0 bits_remaining st s =
     (let (r1, m, s) =
            (if chunk_length st > 0 then
               (let (r1, m, s) = jtag_recv T (tdo st) (tdo_i st) (chunk_length st) s
                in (r1, m, log_call (Recv (chunk_length st) r1) s))
             else (0, tdo st, s));
          i = (if chunk_length st > 0 then tdo_i st + chunk_length st else tdo_i st)
      in if r1 \<noteq> 0 then (1, m, s)
         else if bits_remaining > 0 then
           (let (r2, v, s) = jtag_recv_bits T rbuf0 bits_remaining s;
                s = log_call (RecvBits bits_remaining r2) s
            in if r2 \<noteq> 0 then (1, m, s)
               else (0, (case (m, v) of
                           (Some mm, Some b) \<Rightarrow> Some (mm(i := b))
                         | _ \<Rightarrow> m), s))
         else (0, m, s))"

definition dr_finish ::
  "'tr transport \<Rightarrow> mem \<Rightarrow> mem option \<Rightarrow> mem option \<Rightarrow> int \<Rightarrow> 'tr dr_state
    \<Rightarrow> int \<times> mem option \<times> 'tr session" where
  "dr_finish T rbuf0 tdi tdo0 bits_remaining st =
     (let s = sess st;
          s = (if bits_remaining > 0 then
                 log_call (ShiftBits bits_remaining)
                   (jtag_shift_bits (map_option (\<lambda>m. m (tdi_i st)) tdi)
                      bits_remaining (tdo0 \<noteq> None) s)
               else s);
          s = jtag_exit1_dr_to_rti s;
          (r, s) = jtag_send T s;
          s = log_call (Send r) s
      in if r \<noteq> 0 then (1, tdo st, s)
         else if tdo0 \<noteq> None then dr_receive T rbuf0 bits_remaining st s
         else (0, tdo st, s))"

definition jtag_dr_op ::
  "'tr transport \<Rightarrow> mem \<Rightarrow> mem option \<Rightarrow> mem option \<Rightarrow> int \<Rightarrow> 'tr session
    \<Rightarrow> int \<times> mem option \<times> 'tr session" where
  "jtag_dr_op T rbuf0 tdi tdo0 n s =
     (if tdi = None \<and> tdo0 = None then (1, tdo0, s)
      else
        (case dr_chunks T tdi (dr_init tdo0 n s) of
           Inl e \<Rightarrow> (1, tdo e, sess e)
         | Inr st \<Rightarrow> dr_finish T rbuf0 tdi tdo0 (tail_bits n) st))"

subsection \<open>jtag\_ir\_write and jtag\_mpsse\_sync (lines 571--589)\<close>

definition jtag_ir_write :: "byte \<Rightarrow> 'tr session \<Rightarrow> 'tr session" where
  "jtag_ir_write instruction s =
     (let s = jtag_rti_to_shift_ir s;
          s = jtag_shift_bits (Some instruction) 6 False s
      in jtag_exit1_ir_to_rti s)"

text \<open>
  \<^verbatim>\<open>return (ret | (buf[0] != 0xfa) | (buf[1] != 0xaa));\<close> after a flush whose result
  the source drops. \<open>buf0\<close> is the initial content of the local array \<^verbatim>\<open>buf[2]\<close>.
\<close>

definition jtag_mpsse_sync :: "'tr transport \<Rightarrow> mem \<Rightarrow> 'tr session \<Rightarrow> int \<times> 'tr session" where
  "jtag_mpsse_sync T buf0 s =
     (let s = put 0xaa s;
          s = snd (jtag_send T s);
          (ret, b, s) = jtag_recv T (Some buf0) 0 2 s;
          buf = (case b of Some m \<Rightarrow> m | None \<Rightarrow> buf0)
      in (ret OR of_bool (buf 0 \<noteq> 0xfa) OR of_bool (buf 1 \<noteq> 0xaa), s))"

section \<open>Reading the command stream, and a transport double\<close>

text \<open>
  What one operation appended: the bytes after the old content of the buffer, provided
  the old content is still there as a prefix.
\<close>

definition appended :: "'tr session \<Rightarrow> 'tr session \<Rightarrow> byte list option" where
  "appended s s' =
     (if take (length (jtag_buf s)) (jtag_buf s') = jtag_buf s
      then Some (drop (length (jtag_buf s)) (jtag_buf s')) else None)"

text \<open>
  A TMS-sequence command unit is three bytes: the opcode of a TMS write (LSB first, bit
  mode, on the falling edge), the number of clocked bits minus one, and a data byte. The
  unit carries the TMS levels for its clocks, bit 0 of the data byte first, and bit 7
  of the data byte as the level of the data line.
\<close>

definition tms_unit_of :: "byte list \<Rightarrow> (bool list \<times> bool) option" where
  "tms_unit_of bs =
     (case bs of
        [opc, cnt, d] \<Rightarrow>
          if opc = (MPSSE_WRITE_TMS OR MPSSE_LSB OR MPSSE_BITMODE OR MPSSE_WRITE_NEG) \<and> cnt < 7
          then Some (map (bit d) [0..<Suc (unat cnt)], bit d 7) else None
      | _ \<Rightarrow> None)"

definition tap_unit :: "('tr session \<Rightarrow> 'tr session) \<Rightarrow> 'tr session \<Rightarrow> (bool list \<times> bool) option" where
  "tap_unit f s = Option.bind (appended s (f s)) tms_unit_of"

text \<open>
  A transport double. It keeps every payload it accepted, refuses writes when
  \<open>accept\<close> is off, and serves reads from the queue \<open>rx\<close>, after \<open>stall\<close> reads that
  return no byte. \<open>reads\<close> counts the read calls.
\<close>

record fifo =
  sent :: "byte list list"
  accept :: bool
  rx :: "byte list"
  stall :: nat
  reads :: nat

definition fifo_write :: "fifo \<Rightarrow> byte list \<Rightarrow> int \<times> fifo" where
  "fifo_write tr bs =
     (if accept tr then (int (length bs), tr\<lparr>sent := sent tr @ [bs]\<rparr>) else (- 1, tr))"

definition fifo_read :: "fifo \<Rightarrow> int \<Rightarrow> read_result \<times> fifo" where
  "fifo_read tr n =
     (if stall tr > 0 then (RdBytes [], tr\<lparr>stall := stall tr - 1, reads := Suc (reads tr)\<rparr>)
      else (RdBytes (take (nat n) (rx tr)),
            tr\<lparr>rx := drop (nat n) (rx tr), reads := Suc (reads tr)\<rparr>))"

definition fifo_transport :: "fifo transport" where
  "fifo_transport = \<lparr>ftdi_write_data = fifo_write, ftdi_read_data = fifo_read\<rparr>"

definition fifo0 :: "fifo" where
  "fifo0 = \<lparr>sent = [], accept = True, rx = [], stall = 0, reads = 0\<rparr>"

definition session0 :: "fifo \<Rightarrow> fifo session" where
  "session0 tr = \<lparr>jtag_buf = [], ftdi = tr, calls = []\<rparr>"

definition zeros :: mem where
  "zeros = (\<lambda>i. 0)"

subsection \<open>Sequences of appends\<close>

text \<open>
  The operations of the engine that append to the buffer without flushing it, and a
  run of any list of them.
\<close>

datatype append_op =
    ToTlr | TlrToRti | RtiToShiftIr | RtiToShiftDr | Exit1IrToRti | Exit1DrToRti
  | ShiftBytesOp "mem option" int int bool
  | ShiftBitsOp "byte option" int bool
  | IrWrite byte
  | PutByte byte

fun do_append :: "append_op \<Rightarrow> 'tr session \<Rightarrow> 'tr session" where
  "do_append ToTlr s = jtag_to_tlr s"
| "do_append TlrToRti s = jtag_tlr_to_rti s"
| "do_append RtiToShiftIr s = jtag_rti_to_shift_ir s"
| "do_append RtiToShiftDr s = jtag_rti_to_shift_dr s"
| "do_append Exit1IrToRti s = jtag_exit1_ir_to_rti s"
| "do_append Exit1DrToRti s = jtag_exit1_dr_to_rti s"
| "do_append (ShiftBytesOp tdi off n do_read) s = jtag_shift_bytes tdi off n do_read s"
| "do_append (ShiftBitsOp tdi n do_read) s = jtag_shift_bits tdi n do_read s"
| "do_append (IrWrite instruction) s = jtag_ir_write instruction s"
| "do_append (PutByte b) s = put b s"

definition run_appends :: "append_op list \<Rightarrow> 'tr session \<Rightarrow> 'tr session" where
  "run_appends ops s = foldl (\<lambda>s a. do_append a s) s ops"

text \<open>
  The bytes each operation puts on the wire. A byte-mode command is the opcode, the
  length minus one as two bytes, low byte first, and the data bytes if it writes. A
  bit-mode tail is, for more than one bit, a bit-mode data command (opcode, bit count
  minus one, the low \<open>n - 1\<close> bits of the byte if it writes), and then a TMS command that
  clocks the last bit (bit 7 of its data byte) while leaving the shift state.
\<close>

definition byte_cmd :: "mem option \<Rightarrow> int \<Rightarrow> int \<Rightarrow> bool \<Rightarrow> byte list" where
  "byte_cmd tdi off n rd =
     [0x08 OR (if tdi \<noteq> None then 0x11 else 0) OR (if rd then 0x20 else 0),
      word_of_int ((n - 1) mod 256), word_of_int ((n - 1) div 256)]
     @ (case tdi of None \<Rightarrow> [] | Some m \<Rightarrow> map (\<lambda>i. m (off + int i)) [0..<nat n])"

definition bits_cmd :: "byte option \<Rightarrow> int \<Rightarrow> bool \<Rightarrow> byte list" where
  "bits_cmd tdi n rd =
     (if n > 1 then
        [0x0a OR (if tdi \<noteq> None then 0x11 else 0) OR (if rd then 0x20 else 0), word_of_int (n - 2)]
        @ (case tdi of None \<Rightarrow> [] | Some d \<Rightarrow> [take_bit (nat (n - 1)) d])
      else [])
     @ [0x4b OR (if rd then 0x20 else 0), 0,
        (case tdi of None \<Rightarrow> 0x01 | Some d \<Rightarrow> if bit d (nat (n - 1)) then 0x81 else 0x01)]"

fun unit_bytes :: "append_op \<Rightarrow> byte list" where
  "unit_bytes ToTlr = [0x4b, 4, 0x9f]"
| "unit_bytes TlrToRti = [0x4b, 0, 0x80]"
| "unit_bytes RtiToShiftIr = [0x4b, 3, 0x83]"
| "unit_bytes RtiToShiftDr = [0x4b, 2, 0x81]"
| "unit_bytes Exit1IrToRti = [0x4b, 1, 0x81]"
| "unit_bytes Exit1DrToRti = [0x4b, 1, 0x81]"
| "unit_bytes (ShiftBytesOp tdi off n do_read) = byte_cmd tdi off n do_read"
| "unit_bytes (ShiftBitsOp tdi n do_read) = bits_cmd tdi n do_read"
| "unit_bytes (IrWrite instruction) =
     [0x4b, 3, 0x83] @ bits_cmd (Some instruction) 6 False @ [0x4b, 1, 0x81]"
| "unit_bytes (PutByte b) = [b]"

text \<open>
  The arguments for which the C code of an append is defined and encodes its length
  in full: \<^verbatim>\<open>jtag_shift_bytes\<close> copies \<open>n\<close> bytes and has two bytes for \<open>n - 1\<close>;
  \<^verbatim>\<open>jtag_shift_bits\<close> shifts \<^verbatim>\<open>1 << (n - 1)\<close> in an \<^verbatim>\<open>int\<close> and sends one byte, and
  the program calls it with 6 and with tail lengths 1 to 8 only.
\<close>

fun op_defined :: "append_op \<Rightarrow> bool" where
  "op_defined (ShiftBytesOp tdi off n do_read) = (1 \<le> n \<and> n \<le> 65536)"
| "op_defined (ShiftBitsOp tdi n do_read) = (1 \<le> n \<and> n \<le> 8)"
| "op_defined _ = True"

subsection \<open>The reply of the bridge to the tail commands\<close>

text \<open>
  Modelled from the spec: the answer of the bridge chip to bit-mode commands, with the
  data line looped back to the sampled line. The chip is not code of this repository.
  Section 4.3 step 7 of the spec and the source comment of lines 441--443 (\<^verbatim>\<open>bits
  are shifted in from the left (MSB)\<close>) fix the framing: each sampled bit enters the
  reply byte at bit 7 and moves the earlier content down by one, so a command of \<open>k\<close>
  clocks leaves its samples in the top \<open>k\<close> bits. \<open>junk j\<close> is what reply byte
  number \<open>j\<close> held before its command, so that the bits below the samples are
  arbitrary. The level sampled at a clock is the level driven at that clock: bit \<open>i\<close>
  of the data byte at clock \<open>i\<close> of a data write, bit 7 of the data byte at every
  clock of a TMS write. Other commands are outside this model (\<open>None\<close>).
\<close>

definition shift_in :: "bool \<Rightarrow> byte \<Rightarrow> byte" where
  "shift_in b r = drop_bit 1 r OR (if b then 0x80 else 0)"

definition capture :: "byte \<Rightarrow> bool list \<Rightarrow> byte" where
  "capture r0 bs = foldl (\<lambda>r b. shift_in b r) r0 bs"

fun mpsse_loopback :: "(nat \<Rightarrow> byte) \<Rightarrow> nat \<Rightarrow> byte list \<Rightarrow> byte list option" where
  "mpsse_loopback junk j [] = Some []"
| "mpsse_loopback junk j (opc # cnt # d # rest) =
     (if cnt < 8 \<and> opc AND MPSSE_BITMODE \<noteq> 0 \<and> opc AND MPSSE_LSB \<noteq> 0
         \<and> (opc AND MPSSE_WRITE_TMS \<noteq> 0 \<or> opc AND MPSSE_DO_WRITE \<noteq> 0)
      then
        (let driven = (if opc AND MPSSE_WRITE_TMS \<noteq> 0 then replicate (Suc (unat cnt)) (bit d 7)
                       else map (bit d) [0..<Suc (unat cnt)])
         in if opc AND MPSSE_DO_READ \<noteq> 0
            then map_option (\<lambda>more. capture (junk j) driven # more)
                   (mpsse_loopback junk (Suc j) rest)
            else mpsse_loopback junk j rest)
      else None)"
| "mpsse_loopback junk j _ = None"

text \<open>The realignment formula in the words of the spec (section 4.3, step 7).\<close>

definition realign_spec :: "int \<Rightarrow> byte \<Rightarrow> byte \<Rightarrow> byte" where
  "realign_spec tailBits firstByte secondByte =
     (if tailBits > 1 then drop_bit (nat (8 - tailBits)) ((secondByte AND 0x80) OR drop_bit 1 firstByte)
      else drop_bit 7 (firstByte AND 0x80))"

text \<open>
  The round trip of a tail: \<open>jtag_shift_bits\<close> encodes \<open>v\<close> with capture requested, the
  looped-back bridge answers, the double hands the answer to \<open>jtag_recv_bits\<close>.
\<close>

definition tail_roundtrip :: "(nat \<Rightarrow> byte) \<Rightarrow> mem \<Rightarrow> byte \<Rightarrow> int \<Rightarrow> int \<times> byte option" where
  "tail_roundtrip junk rbuf0 v n =
     (case mpsse_loopback junk 0 (jtag_buf (jtag_shift_bits (Some v) n True (session0 fifo0))) of
        None \<Rightarrow> (1, None)
      | Some reply \<Rightarrow>
          (let (r, b, s) = jtag_recv_bits fifo_transport rbuf0 n (session0 (fifo0\<lparr>rx := reply\<rparr>))
           in (r, b)))"

subsection \<open>The order of the calls of a transfer\<close>





subsection \<open>The traffic of a transfer on the transport\<close>

text \<open>
  A transport that records every call made to it: each \<^verbatim>\<open>ftdi_write_data\<close> with
  the bytes written and its result, each \<^verbatim>\<open>ftdi_read_data\<close> with the number of bytes
  asked for and its result. It wraps any transport and changes nothing else.
\<close>

datatype io = Wr "byte list" int | Rd int read_result


definition iolog :: "('tr \<times> io list) session \<Rightarrow> io list" where
  "iolog s = snd (ftdi s)"






text \<open>
  Reading a log against the flushes. \<open>eat c\<close> takes from the front of the log the reads
  of one complete receive of \<open>c\<close> bytes: each read asks for exactly what is still
  missing, and the receive ends when nothing is. \<open>conforms\<close> holds when the log is, flush
  by flush, one write of exactly the bytes of the flush, accepted in full, then the
  receives of that flush, and nothing else.
\<close>

fun eat :: "int \<Rightarrow> io list \<Rightarrow> io list option" where
  "eat c [] = (if c = 0 then Some [] else None)"
| "eat c (e # log) =
     (if c = 0 then Some (e # log)
      else if c < 0 then None
      else (case e of
              Rd req res \<Rightarrow> if req = c then eat (c - read_count res) log else None
            | Wr bs r \<Rightarrow> None))"



section \<open>Theorems\<close>

subsection \<open>Unfolding the loops, and evaluating the double\<close>

declare jtag_recv_loop.simps [simp del]
declare dr_chunks.simps [simp del]

lemmas fifo_defs = session0_def fifo0_def fifo_transport_def fifo_write_def fifo_read_def

lemmas dr_op_defs = jtag_dr_op_def dr_init_def dr_finish_def dr_receive_def

lemma recv_loop_unfold:
  "\<not> 0 < rn st \<Longrightarrow> jtag_recv_loop T t st = st"
  "0 < rn st \<Longrightarrow> t \<le> 0 \<Longrightarrow> jtag_recv_loop T t st = recv_step T st"
  "0 < rn st \<Longrightarrow> \<not> t \<le> 0 \<Longrightarrow> jtag_recv_loop T t st = jtag_recv_loop T (t - 1) (recv_step T st)"
  by (subst jtag_recv_loop.simps, simp add: Let_def)+

lemma dr_chunks_done: "\<not> 0 < bytes_remaining st \<Longrightarrow> dr_chunks T tdi st = Inr st"
  by (subst dr_chunks.simps) simp

subsection \<open>C9: bit\_swap reverses the bits of a byte\<close>

lemma bit_swap_bit:
  assumes "i < 8"
  shows "bit (bit_swap c) i = bit c (7 - i)"
proof -
  from assms consider "i = 0" | "i = 1" | "i = 2" | "i = 3" | "i = 4" | "i = 5" | "i = 6" | "i = 7"
    by linarith
  then show ?thesis
    unfolding bit_swap_def Let_def
    by cases
      (simp_all only: bit_or_iff bit_and_iff bit_drop_bit_eq bit_push_bit_iff, simp_all add: bit_simps)
qed

text \<open>
  Claim C9. For every byte \<open>b\<close> and every \<open>i\<close> in 0..7, bit \<open>i\<close> of \<open>bit_swap b\<close> is
  bit \<open>7 - i\<close> of \<open>b\<close>; hence \<open>bit_swap\<close> is an involution.
\<close>

theorem bit_swap_reverses:
  "(\<forall>i<8. bit (bit_swap b) i = bit b (7 - i)) \<and> bit_swap (bit_swap b) = b"
proof
  show "\<forall>i<8. bit (bit_swap b) i = bit b (7 - i)"
    by (simp add: bit_swap_bit)
  show "bit_swap (bit_swap b) = b"
  proof (rule bit_word_eqI)
    fix n assume "n < LENGTH(8)"
    then have n: "n < 8" by simp
    then have "bit (bit_swap (bit_swap b)) n = bit (bit_swap b) (7 - n)"
      by (rule bit_swap_bit)
    also have "\<dots> = bit b (7 - (7 - n))"
      by (rule bit_swap_bit) (use n in arith)
    also have "7 - (7 - n) = n" using n by arith
    finally show "bit (bit_swap (bit_swap b)) n = bit b n" .
  qed
qed

theorem bit_swap_reverses_witness:
  "bit_swap 0x2c = 0x34 \<and> bit (bit_swap 0x2c) 2 = bit (0x2c :: byte) 5
     \<and> bit_swap (bit_swap 0x2c) = 0x2c"
  using bit_swap_reverses [of "0x2c"] by (simp add: bit_swap_def)

subsection \<open>C2: the split into whole bytes and tail bits\<close>

text \<open>
  Claim C2. For every bit length \<open>n \<ge> 1\<close> the transfer computes
  \<open>wholeBytes = (n - 1) / 8\<close> and \<open>tailBits = n - wholeBytes * 8\<close>, and \<open>tailBits\<close> lies
  in 1..8. For \<open>n\<close> in 1..8 the whole bytes are 0 and the tail is \<open>n\<close>; 9 gives (1, 1)
  and 16 gives (1, 8). On \<open>n \<ge> 1\<close> C's truncating division is the flooring one.
\<close>

theorem split_bits:
  assumes "1 \<le> n"
  shows "whole_bytes n = (n - 1) div 8 \<and> tail_bits n = n - whole_bytes n * 8
         \<and> 1 \<le> tail_bits n \<and> tail_bits n \<le> 8
         \<and> (n \<le> 8 \<longrightarrow> whole_bytes n = 0 \<and> tail_bits n = n)
         \<and> whole_bytes 9 = 1 \<and> tail_bits 9 = 1
         \<and> whole_bytes 16 = 1 \<and> tail_bits 16 = 8"
proof -
  have w: "whole_bytes k = (k - 1) div 8" if "1 \<le> k" for k
    using that by (cases "k = 1") (simp_all add: whole_bytes_def signed_divide_int_def)
  have t: "tail_bits n = (n - 1) mod 8 + 1"
    using w [OF assms] by (simp add: tail_bits_def minus_div_mult_eq_mod [symmetric] algebra_simps)
  have small: "whole_bytes n = 0 \<and> tail_bits n = n" if "n \<le> 8"
    using that assms w [OF assms] by (simp add: tail_bits_def)
  have range: "1 \<le> tail_bits n \<and> tail_bits n \<le> 8"
    unfolding t by presburger
  show ?thesis
    using w [OF assms] w [of 9] w [of 16] small range by (simp add: tail_bits_def)
qed

theorem split_bits_witness:
  "(1 :: int) \<le> 5 \<and> whole_bytes 5 = 0 \<and> tail_bits 5 = 5"
  using split_bits [of 5] by simp

subsection \<open>C7: the TMS patterns of the TAP transitions\<close>

lemma put_buf [simp]: "jtag_buf (put b s) = jtag_buf s @ [b]"
  by (simp add: put_def)

lemma appended_append: "jtag_buf s' = jtag_buf s @ bs \<Longrightarrow> appended s s' = Some bs"
  by (simp add: appended_def)

lemma tap_bufs:
  "jtag_buf (jtag_to_tlr s) = jtag_buf s @ [0x4b, 4, 0x9f]"
  "jtag_buf (jtag_tlr_to_rti s) = jtag_buf s @ [0x4b, 0, 0x80]"
  "jtag_buf (jtag_rti_to_shift_ir s) = jtag_buf s @ [0x4b, 3, 0x83]"
  "jtag_buf (jtag_rti_to_shift_dr s) = jtag_buf s @ [0x4b, 2, 0x81]"
  "jtag_buf (jtag_exit1_ir_to_rti s) = jtag_buf s @ [0x4b, 1, 0x81]"
  "jtag_buf (jtag_exit1_dr_to_rti s) = jtag_buf s @ [0x4b, 1, 0x81]"
  by (simp_all add: jtag_to_tlr_def jtag_tlr_to_rti_def jtag_rti_to_shift_ir_def
      jtag_rti_to_shift_dr_def jtag_exit1_ir_to_rti_def jtag_exit1_dr_to_rti_def
      Let_def mpsse_defs)

lemma tms_units:
  "tms_unit_of [0x4b, 4, 0x9f] = Some ([True, True, True, True, True], True)"
  "tms_unit_of [0x4b, 0, 0x80] = Some ([False], True)"
  "tms_unit_of [0x4b, 3, 0x83] = Some ([True, True, False, False], True)"
  "tms_unit_of [0x4b, 2, 0x81] = Some ([True, False, False], True)"
  "tms_unit_of [0x4b, 1, 0x81] = Some ([True, False], True)"
  by (simp_all add: tms_unit_of_def mpsse_defs upt_rec bit_simps)

text \<open>
  Claim C7, as stated, gives \<^verbatim>\<open>exit1IRToIdle\<close> and \<^verbatim>\<open>exit1DRToIdle\<close> the pattern 0,1. The
  unit the code appends carries 1,0 (data byte \<^verbatim>\<open>0x81\<close>, two clocks): TMS high takes
  Exit1 to Update, TMS low takes Update to Run-Test/Idle. The source comment
  \<^verbatim>\<open>TMS: 01\<close> writes the last bit first, as \<^verbatim>\<open>TMS: 0011\<close> does for 1,1,0,0.
\<close>

theorem exit1_pattern_counterexample:
  "tap_unit jtag_exit1_ir_to_rti (session0 fifo0) \<noteq> Some ([False, True], True)
   \<and> tap_unit jtag_exit1_dr_to_rti (session0 fifo0) \<noteq> Some ([False, True], True)"
  by (simp add: tap_unit_def appended_append [OF tap_bufs(5)] appended_append [OF tap_bufs(6)]
      tms_units)

text \<open>
  Claim C7, amended. Every TAP transition appends exactly one TMS-sequence unit: the
  opcode, the bit count, and one data byte whose low bits hold the TMS pattern, first
  bit lowest, and whose bit 7 is the data-line level (high in all six). The patterns
  are: forceReset 1,1,1,1,1; resetToIdle 0; idleToShiftIR 1,1,0,0; idleToShiftDR 1,0,0;
  exit1IRToIdle 1,0; exit1DRToIdle 1,0.
\<close>

theorem tap_units:
  "tap_unit jtag_to_tlr s = Some ([True, True, True, True, True], True)
   \<and> tap_unit jtag_tlr_to_rti s = Some ([False], True)
   \<and> tap_unit jtag_rti_to_shift_ir s = Some ([True, True, False, False], True)
   \<and> tap_unit jtag_rti_to_shift_dr s = Some ([True, False, False], True)
   \<and> tap_unit jtag_exit1_ir_to_rti s = Some ([True, False], True)
   \<and> tap_unit jtag_exit1_dr_to_rti s = Some ([True, False], True)"
  by (simp add: tap_unit_def appended_append [OF tap_bufs(1)] appended_append [OF tap_bufs(2)]
      appended_append [OF tap_bufs(3)] appended_append [OF tap_bufs(4)]
      appended_append [OF tap_bufs(5)] appended_append [OF tap_bufs(6)] tms_units)

subsection \<open>C10: flushing an empty buffer\<close>

text \<open>
  Claim C10. With an empty buffer \<open>jtag_send\<close> returns 1 and leaves the session,
  the transport included, as it was, whatever the transport is: no write is attempted.
  A write that accepts another count than the one given makes \<open>jtag_send\<close> return
  the same 1.
\<close>

theorem flush_empty_is_failure:
  "(jtag_buf s = [] \<longrightarrow> jtag_send T s = (1, s))
   \<and> (jtag_buf s \<noteq> [] \<and> fst (ftdi_write_data T (ftdi s) (jtag_buf s)) \<noteq> int (length (jtag_buf s))
        \<longrightarrow> fst (jtag_send T s) = 1)"
  by (auto simp: jtag_send_def Let_def split: prod.splits)

theorem flush_empty_is_failure_witness:
  "jtag_send fifo_transport (session0 fifo0) = (1, session0 fifo0)
   \<and> fst (jtag_send fifo_transport (put 0xaa (session0 (fifo0\<lparr>accept := False\<rparr>)))) = 1"
  using flush_empty_is_failure [of "session0 fifo0" fifo_transport]
    flush_empty_is_failure [of "put 0xaa (session0 (fifo0\<lparr>accept := False\<rparr>))" fifo_transport]
  by (simp add: fifo_defs put_def)

subsection \<open>C8: the argument check of jtag\_dr\_op\<close>





subsection \<open>Masks and single bits of a byte\<close>

lemma test_bit: "(uint (v :: byte) AND push_bit k 1 \<noteq> 0) = bit v k"
proof -
  have "(uint v AND push_bit k 1 \<noteq> 0) = bit (uint v) k"
    by (rule bit_iff_and_push_bit_not_eq_0 [symmetric])
  then show ?thesis by (auto simp: bit_uint_iff dest: bit_imp_le_length)
qed

lemma mask_low: "word_of_int (uint (v :: byte) AND (push_bit k 1 - 1)) = take_bit k v"
  by (rule bit_word_eqI) (auto simp: bit_simps simp flip: mask_eq_exp_minus_1)

lemma test_bit_exp: "(uint (v :: byte) AND 2 ^ k \<noteq> 0) = bit v k"
  using test_bit [of v k] by (simp add: push_bit_of_1)

lemma mask_low_exp: "word_of_int (uint (v :: byte) AND (2 ^ k - 1)) = take_bit k v"
  using mask_low [of v k] by (simp add: push_bit_of_1)

subsection \<open>C4: appends to the command buffer\<close>

lemma put_ftdi [simp]: "ftdi (put b s) = ftdi s"
  by (simp add: put_def)

lemma foldl_put_buf:
  "jtag_buf (foldl (\<lambda>s i. put (f i) s) s xs) = jtag_buf s @ map f xs"
  by (induction xs arbitrary: s) simp_all

lemma foldl_put_ftdi:
  "ftdi (foldl (\<lambda>s i. put (f i) s) s xs) = ftdi s"
  by (induction xs arbitrary: s) simp_all

lemma tap_ftdi:
  "ftdi (jtag_to_tlr s) = ftdi s"
  "ftdi (jtag_tlr_to_rti s) = ftdi s"
  "ftdi (jtag_rti_to_shift_ir s) = ftdi s"
  "ftdi (jtag_rti_to_shift_dr s) = ftdi s"
  "ftdi (jtag_exit1_ir_to_rti s) = ftdi s"
  "ftdi (jtag_exit1_dr_to_rti s) = ftdi s"
  by (simp_all add: jtag_to_tlr_def jtag_tlr_to_rti_def jtag_rti_to_shift_ir_def
      jtag_rti_to_shift_dr_def jtag_exit1_ir_to_rti_def jtag_exit1_dr_to_rti_def Let_def)

lemma and_ff: "(k :: int) AND 0xff = k mod 256"
proof -
  have "(0xff :: int) = mask 8" by (simp add: mask_eq_exp_minus_1)
  then show ?thesis by (simp only: take_bit_eq_mask [symmetric] take_bit_eq_mod) simp
qed

lemma drop8: "drop_bit 8 (k :: int) = k div 256"
  by (simp add: drop_bit_eq_div)

lemma shift_bytes_bytes:
  assumes "1 \<le> n" "n \<le> 65536"
  shows "jtag_buf (jtag_shift_bytes tdi off n rd s) = jtag_buf s @ byte_cmd tdi off n rd"
proof -
  have hi: "(word_of_int ((n - 1) div 256 mod 256) :: byte) = word_of_int ((n - 1) div 256)"
    using assms by simp
  show ?thesis
    by (cases tdi)
      (simp_all add: jtag_shift_bytes_def byte_cmd_def Let_def foldl_put_buf and_ff drop8 hi
        mpsse_defs)
qed

lemma shift_bytes_ftdi: "ftdi (jtag_shift_bytes tdi off n rd s) = ftdi s"
  by (cases tdi) (simp_all add: jtag_shift_bytes_def Let_def foldl_put_ftdi)

lemma shift_bits_bytes:
  "jtag_buf (jtag_shift_bits tdi n rd s) = jtag_buf s @ bits_cmd tdi n rd"
  by (cases tdi)
    (simp_all add: jtag_shift_bits_def bits_cmd_def Let_def mask_low_exp test_bit_exp mpsse_defs)

lemma shift_bits_ftdi: "ftdi (jtag_shift_bits tdi n rd s) = ftdi s"
  by (cases tdi) (simp_all add: jtag_shift_bits_def Let_def)

lemma do_append_bytes:
  "op_defined a \<Longrightarrow> jtag_buf (do_append a s) = jtag_buf s @ unit_bytes a"
  by (cases a) (simp_all add: tap_bufs shift_bytes_bytes shift_bits_bytes jtag_ir_write_def Let_def)

lemma do_append_ftdi: "ftdi (do_append a s) = ftdi s"
  by (cases a) (simp_all add: tap_ftdi shift_bytes_ftdi shift_bits_ftdi jtag_ir_write_def Let_def)

lemma run_appends_bytes:
  "list_all op_defined ops \<Longrightarrow>
     jtag_buf (run_appends ops s) = jtag_buf s @ concat (map unit_bytes ops)"
proof (induction ops arbitrary: s)
  case Nil
  then show ?case by (simp add: run_appends_def)
next
  case (Cons a ops)
  then have "jtag_buf (run_appends ops (do_append a s)) =
      jtag_buf (do_append a s) @ concat (map unit_bytes ops)"
    by simp
  with Cons.prems show ?case
    by (simp add: run_appends_def do_append_bytes)
qed

lemma run_appends_ftdi: "ftdi (run_appends ops s) = ftdi s"
  by (induction ops arbitrary: s) (simp_all add: run_appends_def do_append_ftdi)

text \<open>
  Claim C4, as stated, bounds the length of the buffer by its capacity and has an
  append past it fail with Overflow. No append of the source tests \<^verbatim>\<open>jtag_buf_i\<close>
  against \<^verbatim>\<open>JTAG_BUFFER_SIZE\<close>, and none can report a failure: 349526 transitions to
  Test-Logic-Reset, encoded without a flush between them, take \<^verbatim>\<open>jtag_buf_i\<close> to 1048578,
  so the last two stores address bytes 1048576 and 1048577, outside the 1048576 bytes
  allocated.
\<close>

theorem overflow_counterexample:
  "JTAG_BUFFER_SIZE < int (length (jtag_buf (run_appends (replicate 349526 ToTlr) (session0 fifo0))))"
proof -
  have "list_all op_defined (replicate 349526 ToTlr)"
    by (simp add: list_all_iff)
  then have "jtag_buf (run_appends (replicate 349526 ToTlr) (session0 fifo0)) =
      jtag_buf (session0 fifo0) @ concat (map unit_bytes (replicate 349526 ToTlr))"
    by (rule run_appends_bytes)
  then show ?thesis
    by (simp add: session0_def JTAG_BUFFER_SIZE_def length_concat sum_list_replicate)
qed

text \<open>
  Claim C4, amended. The buffer has no overflow check, and keeping its length within the
  capacity is left to the callers. Within the capacity the appends are exact: when the
  bytes already held and the bytes of a sequence of appends together fit in
  \<^verbatim>\<open>JTAG_BUFFER_SIZE\<close>, the sequence leaves the earlier content in place, adds exactly
  the bytes of its command units in order, writes nothing to the transport, and the
  length stays within the capacity. Nothing is stated for a sequence that does not fit.
\<close>

theorem appends_within_capacity:
  assumes "list_all op_defined ops"
    and "int (length (jtag_buf s)) + int (length (concat (map unit_bytes ops))) \<le> JTAG_BUFFER_SIZE"
  shows "jtag_buf (run_appends ops s) = jtag_buf s @ concat (map unit_bytes ops)
       \<and> ftdi (run_appends ops s) = ftdi s
       \<and> int (length (jtag_buf (run_appends ops s))) \<le> JTAG_BUFFER_SIZE"
  using assms run_appends_bytes [OF assms(1), of s] run_appends_ftdi [of ops s] by simp

theorem appends_within_capacity_witness:
  "jtag_buf (run_appends
       [ToTlr, TlrToRti, IrWrite 0x09, RtiToShiftDr,
        ShiftBytesOp (Some (\<lambda>i. if i = 0 then 0x12 else 0x34)) 0 2 True,
        ShiftBitsOp (Some 0xb5) 5 True, Exit1DrToRti] (session0 fifo0))
     = [0x4b, 4, 0x9f, 0x4b, 0, 0x80,
        0x4b, 3, 0x83, 0x1b, 4, 0x09, 0x4b, 0, 0x01, 0x4b, 1, 0x81,
        0x4b, 2, 0x81, 0x39, 1, 0, 0x12, 0x34, 0x3b, 3, 0x05, 0x6b, 0, 0x81, 0x4b, 1, 0x81]"
  using appends_within_capacity
    [of "[ToTlr, TlrToRti, IrWrite 0x09, RtiToShiftDr,
          ShiftBytesOp (Some (\<lambda>i. if i = 0 then 0x12 else 0x34)) 0 2 True,
          ShiftBitsOp (Some 0xb5) 5 True, Exit1DrToRti]" "session0 fifo0"]
  by (simp add: session0_def JTAG_BUFFER_SIZE_def byte_cmd_def bits_cmd_def upt_rec bit_simps)

subsection \<open>C5: the receive loop and its attempts\<close>

text \<open>
  \<open>jtag_recv_loop\<close> is a total function: its recursion is bounded by \<^verbatim>\<open>timeout\<close>,
  whatever the reads return. A transport whose every read returns less than it was
  asked for makes \<open>jtag_recv\<close> return a positive count of outstanding bytes.
\<close>

lemma recv_step_rbuf: "rbuf (recv_step T st) = None \<longleftrightarrow> rbuf st = None"
  by (auto simp: recv_step_def Let_def split: prod.splits read_result.splits)

lemma recv_loop_rbuf: "rbuf (jtag_recv_loop T t st) = None \<longleftrightarrow> rbuf st = None"
proof (induction T t st rule: jtag_recv_loop.induct)
  case (1 T timeout st)
  show ?case
  proof (cases "rn st > 0 \<and> \<not> timeout \<le> 0")
    case True
    with "1.IH" [of "recv_step T st"] show ?thesis
      by (simp add: recv_loop_unfold recv_step_rbuf)
  next
    case False
    then show ?thesis
      by (cases "0 < rn st") (simp_all add: recv_loop_unfold recv_step_rbuf)
  qed
qed

lemma recv_step_short:
  assumes short: "\<And>tr k. 0 < k \<Longrightarrow> read_count (fst (ftdi_read_data T tr k)) < k"
    and "0 < rn st" and "rbuf st \<noteq> None"
  shows "0 < rn (recv_step T st)"
  using short [of "rn st" "rtr st"] assms(2,3)
  by (auto simp: recv_step_def Let_def read_count_def split: prod.splits read_result.splits)

lemma recv_loop_short:
  assumes short: "\<And>tr k. 0 < k \<Longrightarrow> read_count (fst (ftdi_read_data T tr k)) < k"
  shows "0 < rn st \<Longrightarrow> rbuf st \<noteq> None \<Longrightarrow> 0 < rn (jtag_recv_loop T t st)"
  using short
proof (induction T t st rule: jtag_recv_loop.induct)
  case (1 T timeout st)
  have step: "0 < rn (recv_step T st)" "rbuf (recv_step T st) \<noteq> None"
    using recv_step_short [OF "1.prems"(3) "1.prems"(1,2)] "1.prems"(2)
    by (simp_all add: recv_step_rbuf)
  show ?case
  proof (cases "timeout \<le> 0")
    case True
    with "1.prems" step show ?thesis
      by (simp add: recv_loop_unfold)
  next
    case False
    with "1.IH" [OF _ refl _ step "1.prems"(3)] "1.prems" show ?thesis
      by (simp add: recv_loop_unfold)
  qed
qed

lemma recv_always_short_times_out:
  assumes "\<And>tr k. 0 < k \<Longrightarrow> read_count (fst (ftdi_read_data T tr k)) < k"
    and "0 < n"
  shows "0 < fst (jtag_recv T (Some m) p n s)"
  using recv_loop_short [OF assms(1), of "\<lparr>rbuf = Some m, rpos = p, rn = n, rtr = ftdi s\<rparr>"] assms(2)
  by (simp add: jtag_recv_def Let_def)

lemma split_8: "whole_bytes 8 = 0" "tail_bits 8 = 8"
  by (simp_all add: whole_bytes_def tail_bits_def signed_divide_int_def)

text \<open>
  Claim C5 has the transfer fail once \<^verbatim>\<open>JTAG_RECV_ATTEMPTS\<close> (20) consecutive reads
  came back short. The loop tests \<^verbatim>\<open>timeout-- <= 0\<close> after the read, on the value before
  the decrement, so it reads up to 21 times. Here the double returns no byte on 20
  reads and both tail bytes on the 21st: the transfer of 8 bits returns 0.
\<close>

theorem recv_makes_extra_attempt:
  "(case jtag_dr_op fifo_transport zeros None (Some zeros) 8
           (session0 (fifo0\<lparr>rx := [0x00, 0x80], stall := nat JTAG_RECV_ATTEMPTS\<rparr>)) of
      (r, m, s) \<Rightarrow> (r, stall (ftdi s), reads (ftdi s), calls s))
   = (0, 0, 21, [ShiftBits 8, Send 0, RecvBits 8 0])"
  by (simp add: dr_op_defs split_8 dr_chunks_done Let_def jtag_shift_bits_def
      jtag_rti_to_shift_dr_def jtag_exit1_dr_to_rti_def put_def log_call_def jtag_send_def
      jtag_recv_bits_def jtag_recv_def JTAG_RECV_ATTEMPTS_def jtag_recv_loop.simps recv_step_def read_count_def
      fifo_defs mpsse_defs)

subsection \<open>C6: the handshake\<close>

lemma recv_first_read_complete:
  assumes "ftdi_read_data T (ftdi s) n = (RdBytes bs, tr')" and "int (length bs) = n" and "0 < n"
  shows "jtag_recv T (Some m) p n s = (0, Some (poke m p bs), s\<lparr>ftdi := tr'\<rparr>)"
proof -
  let ?st = "\<lparr>rbuf = Some m, rpos = p, rn = n, rtr = ftdi s\<rparr>"
  have step: "recv_step T ?st = \<lparr>rbuf = Some (poke m p bs), rpos = p + n, rn = 0, rtr = tr'\<rparr>"
    using assms by (simp add: recv_step_def read_count_def Let_def)
  have "jtag_recv_loop T JTAG_RECV_ATTEMPTS ?st = jtag_recv_loop T (JTAG_RECV_ATTEMPTS - 1) (recv_step T ?st)"
    using assms(3) by (simp add: recv_loop_unfold JTAG_RECV_ATTEMPTS_def)
  also have "\<dots> = recv_step T ?st"
    by (simp add: step recv_loop_unfold)
  finally show ?thesis
    by (simp add: jtag_recv_def Let_def step)
qed

lemma recv_some: "\<exists>r m' s'. jtag_recv T (Some m) p n s = (r, Some m', s')"
  using recv_loop_rbuf [of T JTAG_RECV_ATTEMPTS "\<lparr>rbuf = Some m, rpos = p, rn = n, rtr = ftdi s\<rparr>"]
  by (auto simp: jtag_recv_def Let_def)

lemma sync_zero_iff:
  "fst (jtag_mpsse_sync T buf0 s) = 0 \<longleftrightarrow>
     (case jtag_recv T (Some buf0) 0 2 (snd (jtag_send T (put 0xaa s))) of
        (ret, b, s') \<Rightarrow> ret = 0 \<and> (\<exists>m. b = Some m \<and> m 0 = 0xfa \<and> m 1 = 0xaa))"
proof -
  obtain r m' s' where r: "jtag_recv T (Some buf0) 0 2 (snd (jtag_send T (put 0xaa s))) = (r, Some m', s')"
    using recv_some by blast
  show ?thesis
    by (simp add: jtag_mpsse_sync_def Let_def r or_eq_0_iff)
qed

text \<open>
  Claim C6 has every transport failure make the handshake fail. The source calls
  \<^verbatim>\<open>jtag_send\<close> at line 586 and drops its result, although it folds the result of
  \<^verbatim>\<open>jtag_recv\<close> into its return value, and although \<^verbatim>\<open>jtag_init\<close>,
  \<^verbatim>\<open>jtag_dr_op\<close> and \<^verbatim>\<open>main\<close> return on a failed flush. With a transport that refuses the write
  and still delivers the two bytes \<^verbatim>\<open>0xFA\<close>, \<^verbatim>\<open>0xAA\<close>, the flush returns 1, nothing
  has been written, the byte \<^verbatim>\<open>0xAA\<close> is still in the buffer, and the handshake
  returns 0.
\<close>

theorem sync_succeeds_after_failed_flush:
  "fst (jtag_send fifo_transport (put 0xaa (session0 (fifo0\<lparr>accept := False, rx := [0xfa, 0xaa]\<rparr>)))) = 1
   \<and> (case jtag_mpsse_sync fifo_transport zeros
              (session0 (fifo0\<lparr>accept := False, rx := [0xfa, 0xaa]\<rparr>)) of
        (r, s) \<Rightarrow> (r, jtag_buf s, sent (ftdi s))) = (0, [0xaa], [])"
  by (simp add: jtag_mpsse_sync_def jtag_send_def put_def Let_def jtag_recv_def
      JTAG_RECV_ATTEMPTS_def jtag_recv_loop.simps recv_step_def read_count_def poke_def fifo_defs)

text \<open>
  What the handshake does test is the reply. It returns 0 if and only if the receive of
  two bytes left nothing outstanding and the two bytes are \<^verbatim>\<open>0xFA\<close>, \<^verbatim>\<open>0xAA\<close>. In
  particular, when the first read after the flush hands over exactly two bytes, it
  returns 0 if and only if they are \<^verbatim>\<open>0xFA\<close>, \<^verbatim>\<open>0xAA\<close>.
\<close>

theorem sync_checks_echo_only:
  "(fst (jtag_mpsse_sync T buf0 s) = 0 \<longleftrightarrow>
      (case jtag_recv T (Some buf0) 0 2 (snd (jtag_send T (put 0xaa s))) of
         (ret, b, s') \<Rightarrow> ret = 0 \<and> (\<exists>m. b = Some m \<and> m 0 = 0xfa \<and> m 1 = 0xaa)))
   \<and> (fst (ftdi_read_data T (ftdi (snd (jtag_send T (put 0xaa s)))) 2) = RdBytes [x, y] \<longrightarrow>
        (fst (jtag_mpsse_sync T buf0 s) = 0 \<longleftrightarrow> x = 0xfa \<and> y = 0xaa))"
proof (intro conjI impI)
  show "fst (jtag_mpsse_sync T buf0 s) = 0 \<longleftrightarrow>
      (case jtag_recv T (Some buf0) 0 2 (snd (jtag_send T (put 0xaa s))) of
         (ret, b, s') \<Rightarrow> ret = 0 \<and> (\<exists>m. b = Some m \<and> m 0 = 0xfa \<and> m 1 = 0xaa))"
    by (rule sync_zero_iff)
next
  let ?s1 = "snd (jtag_send T (put 0xaa s))"
  assume rd: "fst (ftdi_read_data T (ftdi ?s1) 2) = RdBytes [x, y]"
  then obtain tr' where "ftdi_read_data T (ftdi ?s1) 2 = (RdBytes [x, y], tr')"
    by (cases "ftdi_read_data T (ftdi ?s1) 2") simp
  then have "jtag_recv T (Some buf0) 0 2 ?s1 = (0, Some (poke buf0 0 [x, y]), ?s1\<lparr>ftdi := tr'\<rparr>)"
    by (rule recv_first_read_complete) simp_all
  then show "fst (jtag_mpsse_sync T buf0 s) = 0 \<longleftrightarrow> x = 0xfa \<and> y = 0xaa"
    by (simp add: sync_zero_iff poke_def)
qed

theorem sync_checks_echo_only_witness:
  "fst (jtag_mpsse_sync fifo_transport zeros (session0 (fifo0\<lparr>rx := [0xfa, 0xaa]\<rparr>))) = 0
   \<and> fst (jtag_mpsse_sync fifo_transport zeros (session0 (fifo0\<lparr>rx := [0xfa, 0xab]\<rparr>))) \<noteq> 0"
  using
    conjunct2 [OF sync_checks_echo_only
      [of fifo_transport zeros "session0 (fifo0\<lparr>rx := [0xfa, 0xaa]\<rparr>)" "0xfa" "0xaa"]]
    conjunct2 [OF sync_checks_echo_only
      [of fifo_transport zeros "session0 (fifo0\<lparr>rx := [0xfa, 0xab]\<rparr>)" "0xfa" "0xab"]]
  by (simp add: jtag_send_def put_def Let_def fifo_defs)

subsection \<open>C1: the round trip of the tail bits\<close>

lemma shift_bits_rw_buf:
  assumes "1 < n"
  shows "jtag_buf (jtag_shift_bits (Some v) n True s) =
     jtag_buf s @ [0x3b, word_of_int (n - 2), word_of_int (uint v AND (push_bit (nat (n - 1)) 1 - 1)),
                   0x6b, 0, if uint v AND push_bit (nat (n - 1)) 1 \<noteq> 0 then 0x81 else 0x01]"
  using assms by (simp add: jtag_shift_bits_def Let_def mpsse_defs)

lemma shift_bits_rw_buf1:
  "jtag_buf (jtag_shift_bits (Some v) 1 True s) =
     jtag_buf s @ [0x6b, 0, if uint v AND 1 \<noteq> 0 then 0x81 else 0x01]"
  by (simp add: jtag_shift_bits_def Let_def mpsse_defs)

lemma bit_0x80: "bit (0x80 :: byte) i \<longleftrightarrow> i = 7"
proof -
  have "bit (2 ^ 7 :: byte) i \<longleftrightarrow> possible_bit TYPE(byte) i \<and> i = 7"
    by (rule bit_exp_iff)
  moreover have "(2 ^ 7 :: byte) = 0x80"
    by simp
  ultimately show ?thesis
    by auto
qed

lemma shift_in_bit: "bit (shift_in b r) i \<longleftrightarrow> (if i = 7 then b else i < 7 \<and> bit r (Suc i))"
proof -
  have r: "bit (drop_bit 1 r) i \<longleftrightarrow> i < 7 \<and> bit r (Suc i)"
    by (auto simp: bit_drop_bit_eq dest: bit_imp_le_length)
  have "bit (shift_in b r) i \<longleftrightarrow> bit (drop_bit 1 r) i \<or> (b \<and> bit (0x80 :: byte) i)"
    by (simp add: shift_in_def bit_or_iff)
  then show ?thesis
    unfolding r bit_0x80 by auto
qed

lemma capture_snoc: "capture r0 (bs @ [b]) = shift_in b (capture r0 bs)"
  by (simp add: capture_def)

lemma capture_bit:
  "length bs \<le> 8 \<Longrightarrow> i < 8 \<Longrightarrow>
     bit (capture r0 bs) i \<longleftrightarrow>
       (if i + length bs < 8 then bit r0 (i + length bs) else bs ! (i + length bs - 8))"
proof (induction bs arbitrary: i rule: rev_induct)
  case Nil
  then show ?case by (simp add: capture_def)
next
  case (snoc b bs)
  then show ?case
    by (auto simp: capture_snoc shift_in_bit nth_append)
qed


lemma realign_core:
  assumes k: "1 < k" "k \<le> 8"
  shows "drop_bit (8 - k)
           ((capture r0 [bit v (k - 1)] AND 0x80)
             OR drop_bit 1 (capture r1 (map (bit (take_bit (k - 1) v)) [0..<k - 1])))
         = take_bit k (v :: byte)"
proof (rule bit_word_eqI)
  fix i assume "i < LENGTH(8)"
  then have i: "i < 8" by simp
  let ?A = "capture r0 [bit v (k - 1)]"
  let ?B = "capture r1 (map (bit (take_bit (k - 1) v)) [0..<k - 1])"
  let ?j = "8 - k + i"
  have A: "bit ?A 7 \<longleftrightarrow> bit v (k - 1)"
    by (simp add: capture_bit)
  have B: "bit ?B (Suc j) \<longleftrightarrow> j + k - 8 < k - 1 \<and> bit v (j + k - 8)" if "j < 7" "8 \<le> j + k" for j
    using that k by (simp add: capture_bit bit_take_bit_iff)
  show "bit (drop_bit (8 - k) ((?A AND 0x80) OR drop_bit 1 ?B)) i \<longleftrightarrow> bit (take_bit k v) i"
  proof (cases "i < k")
    case True
    then have j8: "?j < 8" using k by arith
    have "bit (drop_bit (8 - k) ((?A AND 0x80) OR drop_bit 1 ?B)) i
            \<longleftrightarrow> (bit ?A ?j \<and> ?j = 7) \<or> (?j < 7 \<and> bit ?B (Suc ?j))"
      unfolding bit_drop_bit_eq bit_or_iff bit_and_iff bit_0x80
      using j8 by (auto dest: bit_imp_le_length)
    also have "\<dots> \<longleftrightarrow> bit v i"
    proof (cases "?j = 7")
      case True
      then have "i = k - 1" using k by arith
      with True A show ?thesis by simp
    next
      case False
      with j8 have "?j < 7" by arith
      moreover have "8 \<le> ?j + k" using k by arith
      moreover have "?j + k - 8 = i" using k by arith
      ultimately show ?thesis
        using B [of ?j] False k by auto
    qed
    finally show ?thesis
      using True by (simp add: bit_take_bit_iff)
  next
    case False
    then have "\<not> 8 - k + i < 8" using k by arith
    then have "\<not> bit (drop_bit (8 - k) ((?A AND 0x80) OR drop_bit 1 ?B)) i"
      unfolding bit_drop_bit_eq by (auto dest: bit_imp_le_length)
    with False show ?thesis
      by (simp add: bit_take_bit_iff)
  qed
qed

lemma realign_core1:
  "drop_bit 7 (capture r0 [bit v 0] AND 0x80) = take_bit 1 (v :: byte)"
proof (rule bit_word_eqI)
  fix i assume "i < LENGTH(8)"
  then have i: "i < 8" by simp
  have A: "bit (capture r0 [bit v 0]) 7 \<longleftrightarrow> bit v 0"
    by (simp add: capture_bit)
  have "bit (drop_bit 7 (capture r0 [bit v 0] AND 0x80)) i \<longleftrightarrow> i = 0 \<and> bit v 0"
    unfolding bit_drop_bit_eq bit_and_iff bit_0x80
    using A by (cases "i = 0") auto
  also have "\<dots> \<longleftrightarrow> bit (take_bit 1 v) i"
    by (auto simp: bit_take_bit_iff bit_0)
  finally show "bit (drop_bit 7 (capture r0 [bit v 0] AND 0x80)) i \<longleftrightarrow> bit (take_bit 1 v) i" .
qed


lemma unat_count: "0 \<le> k \<Longrightarrow> k < 256 \<Longrightarrow> unat (word_of_int k :: byte) = nat k"
  by (simp add: unat_eq_nat_uint uint_word_of_int)

lemma count_less: "0 \<le> k \<Longrightarrow> k < 8 \<Longrightarrow> (word_of_int k :: byte) < 8"
  by (simp add: word_less_nat_alt unat_count)

lemma tms_level: "bit (if b then 0x81 else (0x01 :: byte)) 7 \<longleftrightarrow> b"
  by (simp add: bit_simps)

lemma tail_reply:
  assumes "1 < n" "n \<le> 8"
  shows "mpsse_loopback junk 0 (jtag_buf (jtag_shift_bits (Some v) n True (session0 fifo0))) =
     Some [capture (junk 0) (map (bit (take_bit (nat n - 1) v)) [0..<nat n - 1]),
           capture (junk 1) [bit v (nat n - 1)]]"
proof -
  have k: "nat (n - 1) = nat n - 1" "Suc (nat (n - 2)) = nat n - 1"
    using assms by simp_all
  have c: "(word_of_int (n - 2) :: byte) < 8" "unat (word_of_int (n - 2) :: byte) = nat (n - 2)"
    using assms count_less [of "n - 2"] unat_count [of "n - 2"] by simp_all
  show ?thesis
    using assms c
    by (simp add: shift_bits_rw_buf mask_low_exp test_bit_exp tms_level k session0_def mpsse_defs)
qed

lemma tail_reply1:
  "mpsse_loopback junk 0 (jtag_buf (jtag_shift_bits (Some v) 1 True (session0 fifo0))) =
     Some [capture (junk 0) [bit v 0]]"
  using test_bit [of v 0]
  by (simp add: shift_bits_rw_buf1 tms_level session0_def mpsse_defs)

lemma recv_bits_formula:
  assumes "1 \<le> n" "n \<le> 8"
  shows "jtag_recv_bits T rbuf0 n s =
     (case jtag_recv T (Some rbuf0) 0 (if n > 1 then 2 else 1) s of
        (r, rb, s') \<Rightarrow>
          if r \<noteq> 0 then (1, None, s')
          else (0, map_option (\<lambda>m. realign_spec n (m 0) (m 1)) rb, s'))"
  using assms by (simp add: jtag_recv_bits_def realign_spec_def Let_def split: prod.splits)

lemma fifo_recv_all:
  assumes "int (length bs) = n" "0 < n"
  shows "jtag_recv fifo_transport (Some m) 0 n (session0 (fifo0\<lparr>rx := bs\<rparr>)) =
     (0, Some (poke m 0 bs), session0 (fifo0\<lparr>rx := [], reads := 1\<rparr>))"
proof -
  have "jtag_recv fifo_transport (Some m) 0 n (session0 (fifo0\<lparr>rx := bs\<rparr>)) =
      (0, Some (poke m 0 bs), (session0 (fifo0\<lparr>rx := bs\<rparr>))\<lparr>ftdi := fifo0\<lparr>rx := [], reads := 1\<rparr>\<rparr>)"
    using assms by (intro recv_first_read_complete) (auto simp: fifo_defs)
  then show ?thesis by (simp add: session0_def)
qed

text \<open>
  Claim C1. For every tail of 1 to 8 bits and every byte \<open>v\<close>: the tail path encodes
  \<open>v\<close> (a bit-mode command for all bits but the last and the one-bit TMS command for
  the last, or the TMS command alone for a tail of one bit); the looped-back bridge
  answers with two bytes, or one; and \<open>jtag_recv_bits\<close> returns 0 and stores exactly
  the low tail bits of \<open>v\<close>, whatever the reply bytes and the local array held before.
  Encoding the truncated value gives the same. The value \<open>jtag_recv_bits\<close> stores
  is the formula of the spec applied to the bytes received.
\<close>

theorem tail_round_trip:
  assumes "1 \<le> n" "n \<le> 8"
  shows "tail_roundtrip junk rbuf0 v n = (0, Some (take_bit (nat n) v))
       \<and> tail_roundtrip junk rbuf0 (take_bit (nat n) v) n = (0, Some (take_bit (nat n) v))
       \<and> jtag_recv_bits T rbuf0 n s =
           (case jtag_recv T (Some rbuf0) 0 (if n > 1 then 2 else 1) s of
              (r, rb, s') \<Rightarrow>
                if r \<noteq> 0 then (1, None, s')
                else (0, map_option (\<lambda>m. realign_spec n (m 0) (m 1)) rb, s'))"
proof -
  have rt: "tail_roundtrip junk rbuf0 w n = (0, Some (take_bit (nat n) w))" for w
  proof (cases "n = 1")
    case True
    let ?A = "capture (junk 0) [bit w 0]"
    have "jtag_recv fifo_transport (Some rbuf0) 0 1 (session0 (fifo0\<lparr>rx := [?A]\<rparr>)) =
        (0, Some (poke rbuf0 0 [?A]), session0 (fifo0\<lparr>rx := [], reads := 1\<rparr>))"
      by (rule fifo_recv_all) simp_all
    then show ?thesis
      using True realign_core1 [of "junk 0" w]
      by (simp add: tail_roundtrip_def tail_reply1 jtag_recv_bits_def Let_def poke_def)
  next
    case False
    with assms have n: "1 < n" "n \<le> 8" by simp_all
    let ?A = "capture (junk 0) (map (bit (take_bit (nat n - 1) w)) [0..<nat n - 1])"
    let ?B = "capture (junk 1) [bit w (nat n - 1)]"
    have "jtag_recv fifo_transport (Some rbuf0) 0 2 (session0 (fifo0\<lparr>rx := [?A, ?B]\<rparr>)) =
        (0, Some (poke rbuf0 0 [?A, ?B]), session0 (fifo0\<lparr>rx := [], reads := 1\<rparr>))"
      by (rule fifo_recv_all) simp_all
    moreover have "nat (8 - n) = 8 - nat n"
      using n by simp
    moreover have "1 < nat n" "nat n \<le> 8"
      using n by simp_all
    ultimately show ?thesis
      using n realign_core [of "nat n" "junk 1" w "junk 0"]
      by (simp add: tail_roundtrip_def tail_reply jtag_recv_bits_def Let_def poke_def)
  qed
  have rt': "tail_roundtrip junk rbuf0 (take_bit (nat n) v) n = (0, Some (take_bit (nat n) v))"
    using rt [of "take_bit (nat n) v"] by simp
  show ?thesis
    by (intro conjI rt rt' recv_bits_formula assms)
qed

theorem tail_round_trip_witness:
  "tail_roundtrip (\<lambda>j. if j = 0 then 0xff else 0x3c) zeros 0xb5 5 = (0, Some 0x15)
   \<and> mpsse_loopback (\<lambda>j. if j = 0 then 0xff else 0x3c) 0
        (jtag_buf (jtag_shift_bits (Some 0xb5) 5 True (session0 fifo0)))
       = Some [0x5f, 0x9e]
   \<and> realign_spec 5 0x5f 0x9e = 0x15"
  using tail_round_trip [of 5 "\<lambda>j. if j = 0 then 0xff else 0x3c" zeros "0xb5"
      fifo_transport "session0 fifo0"]
  by (simp add: realign_spec_def jtag_shift_bits_def Let_def put_def capture_def shift_in_def
      fifo_defs mpsse_defs upt_rec bit_simps)

subsection \<open>C3: the order of flush, receive and encode in the chunk loop\<close>

text \<open>None of the callees touches the history; the model of the transfer alone appends to it.\<close>

lemma put_calls [simp]: "calls (put b s) = calls s"
  by (simp add: put_def)

lemma foldl_put_calls: "calls (foldl (\<lambda>s i. put (f i) s) s xs) = calls s"
  by (induction xs arbitrary: s) simp_all

lemma shift_bytes_calls [simp]: "calls (jtag_shift_bytes tdi off n rd s) = calls s"
  by (cases tdi) (simp_all add: jtag_shift_bytes_def Let_def foldl_put_calls)

lemma shift_bits_calls [simp]: "calls (jtag_shift_bits tdi n rd s) = calls s"
  by (cases tdi) (simp_all add: jtag_shift_bits_def Let_def)

lemma tap_dr_calls [simp]:
  "calls (jtag_rti_to_shift_dr s) = calls s"
  "calls (jtag_exit1_dr_to_rti s) = calls s"
  by (simp_all add: jtag_rti_to_shift_dr_def jtag_exit1_dr_to_rti_def Let_def)




lemma log_calls [simp]: "calls (log_call c s) = calls s @ [c]"
  by (simp add: log_call_def)



















subsection \<open>C3: the traffic of a transfer on the transport\<close>

lemma eat_zero [simp]: "eat 0 log = Some log"
  by (cases log) simp_all









lemma log_call_io [simp]: "iolog (log_call c s) = iolog s" "jtag_buf (log_call c s) = jtag_buf s"
  by (simp_all add: log_call_def iolog_def)

lemma shift_bytes_io [simp]: "iolog (jtag_shift_bytes tdi off n rd s) = iolog s"
  by (simp add: iolog_def shift_bytes_ftdi)

lemma shift_bits_io [simp]: "iolog (jtag_shift_bits tdi n rd s) = iolog s"
  by (simp add: iolog_def shift_bits_ftdi)

lemma tap_dr_io [simp]:
  "iolog (jtag_rti_to_shift_dr s) = iolog s" "iolog (jtag_exit1_dr_to_rti s) = iolog s"
  by (simp_all add: iolog_def tap_ftdi)























end
